theory Spec2Isabelle
  imports Main
begin

section \<open>The T-tetromino puzzle: data model\<close>

text \<open>
  The repository holds three near-identical React components. Each keeps a square grid of
  cells, a list of grid snapshots and a cursor into that list:
  \<^item> \<^verbatim>\<open>src/src/App.tsx\<close>, first document (lines 1-252), and \<^verbatim>\<open>PuzzleGame\<close> of
    \<^verbatim>\<open>src/unnamed/part_000\<close> (the same text with \<^verbatim>\<open>size\<close> for the constant 8);
  \<^item> \<^verbatim>\<open>src/src/App.tsx\<close>, second document (lines 253-478), whose offset table has the
    patterns of rotations 0 and 180 exchanged;
  \<^item> \<^verbatim>\<open>src/unnamed/part_001\<close>, with a single orientation and a hand-written validator.

  \<^verbatim>\<open>type Cell = null | 'T'\<close>, \<^verbatim>\<open>type Grid = Cell[][]\<close>,
  \<^verbatim>\<open>type Rotation = 0 | 90 | 180 | 270\<close>. Row and column numbers are integers.
\<close>

datatype Cell = Null | T

type_synonym Grid = "Cell list list"

datatype Rotation = R0 | R90 | R180 | R270

text \<open>The only exception the handlers can raise: reading a property of \<^verbatim>\<open>undefined\<close>.\<close>

datatype js_error = TypeError

text \<open>
  The component state (\<^verbatim>\<open>useState\<close>). The variable \<^verbatim>\<open>grid\<close> is assigned from
  \<^verbatim>\<open>history[i]\<close> by undo and redo, which is \<^verbatim>\<open>undefined\<close> when \<^verbatim>\<open>i\<close> is not an index
  of the array: \<open>None\<close> stands for \<^verbatim>\<open>undefined\<close>. The single-orientation component has
  the first three fields only.
\<close>

record hstate =
  grid :: "Grid option"
  history :: "Grid list"
  currentStep :: int

record rstate = hstate +
  currentRotation :: Rotation

section \<open>JavaScript arrays\<close>

text \<open>\<^verbatim>\<open>xs[i]\<close>: the element, or \<^verbatim>\<open>undefined\<close> (\<open>None\<close>) outside the array.\<close>

definition js_nth :: "'a list \<Rightarrow> int \<Rightarrow> 'a option" where
  "js_nth xs i = (if 0 \<le> i \<and> i < int (length xs) then Some (xs ! nat i) else None)"

text \<open>
  \<^verbatim>\<open>xs[i] = v\<close>. Inside the array the element is replaced. Beyond the end JavaScript
  extends the array, leaving holes that read as \<^verbatim>\<open>undefined\<close>; the program looks at a
  cell only through \<^verbatim>\<open>!cell\<close> and \<^verbatim>\<open>cell === 'T'\<close>, which do not tell a hole from
  \<^verbatim>\<open>null\<close>, so the holes are filled with the given value \<open>hole\<close>. A negative index sets
  a property that is no element: the elements stay as they are.
\<close>

definition js_set :: "'a \<Rightarrow> 'a list \<Rightarrow> int \<Rightarrow> 'a \<Rightarrow> 'a list" where
  "js_set hole xs i v =
     (if i < 0 then xs
      else if i < int (length xs) then xs[nat i := v]
      else xs @ replicate (nat i - length xs) hole @ [v])"

text \<open>
  \<^verbatim>\<open>xs.slice(0, e)\<close>: a negative end counts from the end of the array, and the end is
  clamped to the array.
\<close>

definition js_slice0 :: "'a list \<Rightarrow> int \<Rightarrow> 'a list" where
  "js_slice0 xs e =
     (let n = int (length xs);
          k = (if e < 0 then max (n + e) 0 else min e n)
      in take (nat k) xs)"

text \<open>
  \<^verbatim>\<open>grid[r][c]\<close>: a TypeError when \<^verbatim>\<open>grid\<close> or \<^verbatim>\<open>grid[r]\<close> is \<^verbatim>\<open>undefined\<close>,
  otherwise the cell or \<^verbatim>\<open>undefined\<close>.
\<close>

definition grid_read :: "Grid option \<Rightarrow> int \<Rightarrow> int \<Rightarrow> js_error + Cell option" where
  "grid_read g r c =
     (case g of
        None \<Rightarrow> Inl TypeError
      | Some rows \<Rightarrow>
          (case js_nth rows r of
             None \<Rightarrow> Inl TypeError
           | Some row \<Rightarrow> Inr (js_nth row c)))"

text \<open>\<^verbatim>\<open>!v\<close> for a cell value: \<^verbatim>\<open>undefined\<close> and \<^verbatim>\<open>null\<close> are falsy, \<^verbatim>\<open>'T'\<close> is not.\<close>

definition falsy :: "Cell option \<Rightarrow> bool" where
  "falsy v = (v = None \<or> v = Some Null)"

text \<open>\<^verbatim>\<open>newGrid[r][c] = 'T'\<close>: a TypeError when \<^verbatim>\<open>newGrid[r]\<close> is \<^verbatim>\<open>undefined\<close>.\<close>

definition grid_write :: "Grid \<Rightarrow> int \<Rightarrow> int \<Rightarrow> js_error + Grid" where
  "grid_write g r c =
     (case js_nth g r of
        None \<Rightarrow> Inl TypeError
      | Some row \<Rightarrow> Inr (g[nat r := js_set Null row c T]))"

text \<open>
  \<^verbatim>\<open>cells.forEach(([r, c]) => { newGrid[r][c] = 'T'; })\<close>, and the four assignments of
  the single-orientation component, in order.
\<close>

fun mark_cells :: "Grid \<Rightarrow> (int \<times> int) list \<Rightarrow> js_error + Grid" where
  "mark_cells g [] = Inr g"
| "mark_cells g ((r, c) # cs) =
     (case grid_write g r c of
        Inl e \<Rightarrow> Inl e
      | Inr g' \<Rightarrow> mark_cells g' cs)"

text \<open>\<^verbatim>\<open>Array(size).fill(null).map(() => Array(size).fill(null))\<close>\<close>

definition emptyGrid :: "nat \<Rightarrow> Grid" where
  "emptyGrid sz = replicate sz (replicate sz Null)"

section \<open>Evaluation with a log of the grid reads\<close>

text \<open>
  A boolean expression of the validators evaluates to a value or raises, and reads the grid
  on the way. The log lists the index pairs \<open>(r, c)\<close> of the reads \<^verbatim>\<open>grid[r][c]\<close> in
  the order they are made.
\<close>

type_synonym 'a logged = "(int \<times> int) list \<times> (js_error + 'a)"

definition ret :: "bool \<Rightarrow> bool logged" where
  "ret b = ([], Inr b)"

text \<open>\<^verbatim>\<open>!grid[r][c]\<close>\<close>

definition not_grid :: "Grid option \<Rightarrow> int \<Rightarrow> int \<Rightarrow> bool logged" where
  "not_grid g r c =
     ([(r, c)], case grid_read g r c of Inl e \<Rightarrow> Inl e | Inr v \<Rightarrow> Inr (falsy v))"

text \<open>\<^verbatim>\<open>a && b\<close>: \<^verbatim>\<open>b\<close> is evaluated only when \<^verbatim>\<open>a\<close> is true.\<close>

definition andalso :: "bool logged \<Rightarrow> bool logged \<Rightarrow> bool logged" where
  "andalso a b =
     (case snd a of
        Inr True \<Rightarrow> (fst a @ fst b, snd b)
      | _ \<Rightarrow> a)"

text \<open>\<^verbatim>\<open>xs.every(f)\<close>: stops at the first element where \<^verbatim>\<open>f\<close> is false or raises.\<close>

fun every :: "('a \<Rightarrow> bool logged) \<Rightarrow> 'a list \<Rightarrow> bool logged" where
  "every f [] = ret True"
| "every f (x # xs) = andalso (f x) (every f xs)"

section \<open>Shape geometry\<close>

text \<open>
  \<^verbatim>\<open>getTetrominoCells\<close> of \<^verbatim>\<open>src/src/App.tsx\<close> lines 113-144 and of
  \<^verbatim>\<open>src/unnamed/part_000\<close> lines 142-173 (the two are the same).
\<close>

fun getTetrominoCells :: "int \<Rightarrow> int \<Rightarrow> Rotation \<Rightarrow> (int \<times> int) list" where
  "getTetrominoCells row col R0 =
     [(row + 1, col), (row, col), (row, col - 1), (row, col + 1)]"
| "getTetrominoCells row col R90 =
     [(row, col), (row - 1, col), (row + 1, col), (row, col - 1)]"
| "getTetrominoCells row col R180 =
     [(row, col), (row + 1, col), (row + 1, col - 1), (row + 1, col + 1)]"
| "getTetrominoCells row col R270 =
     [(row, col), (row - 1, col), (row + 1, col), (row, col + 1)]"

text \<open>\<^verbatim>\<open>getTetrominoCells\<close> of \<^verbatim>\<open>src/src/App.tsx\<close> lines 338-369.\<close>

fun getTetrominoCells2 :: "int \<Rightarrow> int \<Rightarrow> Rotation \<Rightarrow> (int \<times> int) list" where
  "getTetrominoCells2 row col R0 =
     [(row, col), (row + 1, col), (row + 1, col - 1), (row + 1, col + 1)]"
| "getTetrominoCells2 row col R90 =
     [(row, col), (row - 1, col), (row + 1, col), (row, col - 1)]"
| "getTetrominoCells2 row col R180 =
     [(row + 1, col), (row, col), (row, col - 1), (row, col + 1)]"
| "getTetrominoCells2 row col R270 =
     [(row, col), (row - 1, col), (row + 1, col), (row, col + 1)]"

text \<open>
  The single-orientation component (\<^verbatim>\<open>src/unnamed/part_001\<close>) has no geometry function:
  these are the four cells its \<^verbatim>\<open>placeTetromino\<close> assigns (lines 93-96), in that order.
\<close>

definition tetrominoCells1 :: "int \<Rightarrow> int \<Rightarrow> (int \<times> int) list" where
  "tetrominoCells1 row col =
     [(row, col), (row + 1, col), (row + 1, col - 1), (row + 1, col + 1)]"

section \<open>Placement validator\<close>

text \<open>
  \<^verbatim>\<open>isValidPlacement\<close> of the components with rotations. The three copies differ in
  the board size (8, 8, \<^verbatim>\<open>size\<close>) and in the geometry function they call, which are
  parameters here. \<open>cell_check\<close> is the arrow function given to \<^verbatim>\<open>every\<close>:
  \<^verbatim>\<open>cells.every(([r, c]) => r >= 0 && r < size && c >= 0 && c < size && !grid[r][c])\<close>
\<close>

type_synonym geometry = "int \<Rightarrow> int \<Rightarrow> Rotation \<Rightarrow> (int \<times> int) list"

definition cell_check :: "nat \<Rightarrow> Grid option \<Rightarrow> int \<times> int \<Rightarrow> bool logged" where
  "cell_check sz g =
     (\<lambda>(r, c). andalso (ret (r \<ge> 0 \<and> r < int sz \<and> c \<ge> 0 \<and> c < int sz)) (not_grid g r c))"

definition isValidPlacement_log ::
  "nat \<Rightarrow> geometry \<Rightarrow> Grid option \<Rightarrow> int \<Rightarrow> int \<Rightarrow> Rotation \<Rightarrow> bool logged" where
  "isValidPlacement_log sz cellsf g row col rotation =
     every (cell_check sz g) (cellsf row col rotation)"

definition isValidPlacement ::
  "nat \<Rightarrow> geometry \<Rightarrow> Grid option \<Rightarrow> int \<Rightarrow> int \<Rightarrow> Rotation \<Rightarrow> js_error + bool" where
  "isValidPlacement sz cellsf g row col rotation =
     snd (isValidPlacement_log sz cellsf g row col rotation)"

text \<open>
  \<^verbatim>\<open>isValidPlacement\<close> of \<^verbatim>\<open>src/unnamed/part_001\<close>, lines 75-87: the guard, then
  the six operands of \<^verbatim>\<open>&&\<close> in the order of the source, the two column tests last.
\<close>

definition isValidPlacement1_log :: "Grid option \<Rightarrow> int \<Rightarrow> int \<Rightarrow> bool logged" where
  "isValidPlacement1_log g row col =
     (if row < 0 \<or> row \<ge> 7 \<or> col < 0 \<or> col \<ge> 8 then ret False
      else
        andalso (not_grid g row col)
       (andalso (not_grid g (row + 1) col)
       (andalso (not_grid g (row + 1) (col - 1))
       (andalso (not_grid g (row + 1) (col + 1))
       (andalso (ret (col > 0))
                (ret (col < 7)))))))"

definition isValidPlacement1 :: "Grid option \<Rightarrow> int \<Rightarrow> int \<Rightarrow> js_error + bool" where
  "isValidPlacement1 g row col = snd (isValidPlacement1_log g row col)"

section \<open>Operations\<close>

text \<open>
  \<^verbatim>\<open>placeTetromino\<close> of the components with rotations. \<^verbatim>\<open>grid.map(row => [...row])\<close>
  copies the grid, so the snapshots in the history are never written to; in a model of
  values the copy is the grid itself. An exception leaves the handler before any
  \<^verbatim>\<open>setState\<close>.
\<close>

definition placeTetromino :: "nat \<Rightarrow> geometry \<Rightarrow> rstate \<Rightarrow> int \<Rightarrow> int \<Rightarrow> js_error + rstate" where
  "placeTetromino sz cellsf s row col =
     (case isValidPlacement sz cellsf (grid s) row col (currentRotation s) of
        Inl e \<Rightarrow> Inl e
      | Inr False \<Rightarrow> Inr s
      | Inr True \<Rightarrow>
          (case grid s of
             None \<Rightarrow> Inl TypeError
           | Some g \<Rightarrow>
               (case mark_cells g (cellsf row col (currentRotation s)) of
                  Inl e \<Rightarrow> Inl e
                | Inr newGrid \<Rightarrow>
                    Inr (s\<lparr>grid := Some newGrid,
                           history := js_slice0 (history s) (currentStep s + 1) @ [newGrid],
                           currentStep := currentStep s + 1\<rparr>))))"

text \<open>\<^verbatim>\<open>placeTetromino\<close> of \<^verbatim>\<open>src/unnamed/part_001\<close>, lines 89-104.\<close>

definition placeTetromino1 :: "hstate \<Rightarrow> int \<Rightarrow> int \<Rightarrow> js_error + hstate" where
  "placeTetromino1 s row col =
     (case isValidPlacement1 (grid s) row col of
        Inl e \<Rightarrow> Inl e
      | Inr False \<Rightarrow> Inr s
      | Inr True \<Rightarrow>
          (case grid s of
             None \<Rightarrow> Inl TypeError
           | Some g \<Rightarrow>
               (case mark_cells g (tetrominoCells1 row col) of
                  Inl e \<Rightarrow> Inl e
                | Inr newGrid \<Rightarrow>
                    Inr (s\<lparr>grid := Some newGrid,
                           history := js_slice0 (history s) (currentStep s + 1) @ [newGrid],
                           currentStep := currentStep s + 1\<rparr>))))"

text \<open>\<^verbatim>\<open>undo\<close>, \<^verbatim>\<open>redo\<close> (the same in every component).\<close>

definition undo :: "'a hstate_scheme \<Rightarrow> 'a hstate_scheme" where
  "undo s =
     (if currentStep s > 0
      then s\<lparr>currentStep := currentStep s - 1,
             grid := js_nth (history s) (currentStep s - 1)\<rparr>
      else s)"

definition redo :: "'a hstate_scheme \<Rightarrow> 'a hstate_scheme" where
  "redo s =
     (if currentStep s < int (length (history s)) - 1
      then s\<lparr>currentStep := currentStep s + 1,
             grid := js_nth (history s) (currentStep s + 1)\<rparr>
      else s)"

text \<open>\<^verbatim>\<open>reset\<close>; the rotation is not touched.\<close>

definition reset :: "nat \<Rightarrow> 'a hstate_scheme \<Rightarrow> 'a hstate_scheme" where
  "reset sz s =
     s\<lparr>grid := Some (emptyGrid sz), history := [emptyGrid sz], currentStep := 0\<rparr>"

definition rotateShape :: "Rotation \<Rightarrow> rstate \<Rightarrow> rstate" where
  "rotateShape rotation s = s\<lparr>currentRotation := rotation\<rparr>"

text \<open>The initial values of the \<^verbatim>\<open>useState\<close> hooks.\<close>

definition init :: "nat \<Rightarrow> rstate" where
  "init sz =
     \<lparr>grid = Some (emptyGrid sz), history = [emptyGrid sz], currentStep = 0,
      currentRotation = R0\<rparr>"

definition init1 :: hstate where
  "init1 = \<lparr>grid = Some (emptyGrid 8), history = [emptyGrid 8], currentStep = 0\<rparr>"

section \<open>Sessions\<close>

text \<open>
  The events the presentation layer dispatches, and a session as the list of events
  handled one after the other. A handler that raises ends the run with the error.
\<close>

datatype event = Place int int | Undo | Redo | Reset | SetRotation Rotation

fun handle :: "nat \<Rightarrow> geometry \<Rightarrow> rstate \<Rightarrow> event \<Rightarrow> js_error + rstate" where
  "handle sz cellsf s (Place row col) = placeTetromino sz cellsf s row col"
| "handle sz cellsf s Undo = Inr (undo s)"
| "handle sz cellsf s Redo = Inr (redo s)"
| "handle sz cellsf s Reset = Inr (reset sz s)"
| "handle sz cellsf s (SetRotation r) = Inr (rotateShape r s)"

fun run :: "nat \<Rightarrow> geometry \<Rightarrow> rstate \<Rightarrow> event list \<Rightarrow> js_error + rstate" where
  "run sz cellsf s [] = Inr s"
| "run sz cellsf s (e # es) =
     (case handle sz cellsf s e of
        Inl err \<Rightarrow> Inl err
      | Inr s' \<Rightarrow> run sz cellsf s' es)"

datatype event1 = Place1 int int | Undo1 | Redo1 | Reset1

fun handle1 :: "hstate \<Rightarrow> event1 \<Rightarrow> js_error + hstate" where
  "handle1 s (Place1 row col) = placeTetromino1 s row col"
| "handle1 s Undo1 = Inr (undo s)"
| "handle1 s Redo1 = Inr (redo s)"
| "handle1 s Reset1 = Inr (reset 8 s)"

fun run1 :: "hstate \<Rightarrow> event1 list \<Rightarrow> js_error + hstate" where
  "run1 s [] = Inr s"
| "run1 s (e # es) =
     (case handle1 s e of
        Inl err \<Rightarrow> Inl err
      | Inr s' \<Rightarrow> run1 s' es)"

section \<open>Boards\<close>

text \<open>A board of size N: N rows of N cells.\<close>

definition wf_grid :: "nat \<Rightarrow> Grid \<Rightarrow> bool" where
  "wf_grid sz g = (length g = sz \<and> list_all (\<lambda>row. length row = sz) g)"

text \<open>The cells of a grid that hold \<^verbatim>\<open>'T'\<close>, row by row.\<close>

definition occupied :: "Grid \<Rightarrow> (int \<times> int) list" where
  "occupied g =
     concat (map (\<lambda>r. map (\<lambda>c. (int r, int c)) (filter (\<lambda>c. g ! r ! c = T) [0..<length (g ! r)]))
                 [0..<length g])"

text \<open>
  The acceptance condition in the words of the specification: every cell has its row and
  its column in \<open>[0, N)\<close> and is Empty on the board.
\<close>

definition spec_accepts :: "nat \<Rightarrow> Grid \<Rightarrow> (int \<times> int) list \<Rightarrow> bool" where
  "spec_accepts sz g cells =
     list_all (\<lambda>(r, c). 0 \<le> r \<and> r < int sz \<and> 0 \<le> c \<and> c < int sz
                         \<and> grid_read (Some g) r c = Inr (Some Null)) cells"

text \<open>
  What holds of the state between two events: the cursor is an index of the history, the
  grid is the snapshot under the cursor, and every snapshot is a board of size N.
\<close>

definition session_inv :: "nat \<Rightarrow> 'a hstate_scheme \<Rightarrow> bool" where
  "session_inv sz s =
     (0 \<le> currentStep s \<and> currentStep s < int (length (history s))
      \<and> grid s = js_nth (history s) (currentStep s)
      \<and> list_all (wf_grid sz) (history s))"

text \<open>
  Two boards of size 8 for the scenarios: the T with its stem at \<open>(0, 1)\<close> above the bar
  \<open>(1, 0), (1, 1), (1, 2)\<close>, and the T with its bar \<open>(0, 0), (0, 1), (0, 2)\<close> above the stem
  at \<open>(1, 1)\<close>.
\<close>

definition board_stem_up :: Grid where
  "board_stem_up =
     [[Null, T, Null, Null, Null, Null, Null, Null],
      [T, T, T, Null, Null, Null, Null, Null],
      [Null, Null, Null, Null, Null, Null, Null, Null],
      [Null, Null, Null, Null, Null, Null, Null, Null],
      [Null, Null, Null, Null, Null, Null, Null, Null],
      [Null, Null, Null, Null, Null, Null, Null, Null],
      [Null, Null, Null, Null, Null, Null, Null, Null],
      [Null, Null, Null, Null, Null, Null, Null, Null]]"

definition board_bar_up :: Grid where
  "board_bar_up =
     [[T, T, T, Null, Null, Null, Null, Null],
      [Null, T, Null, Null, Null, Null, Null, Null],
      [Null, Null, Null, Null, Null, Null, Null, Null],
      [Null, Null, Null, Null, Null, Null, Null, Null],
      [Null, Null, Null, Null, Null, Null, Null, Null],
      [Null, Null, Null, Null, Null, Null, Null, Null],
      [Null, Null, Null, Null, Null, Null, Null, Null],
      [Null, Null, Null, Null, Null, Null, Null, Null]]"

text \<open>The state after one accepted placement that produced the board \<open>b\<close>.\<close>

definition placed_once :: "Grid \<Rightarrow> Rotation \<Rightarrow> rstate" where
  "placed_once b rot =
     \<lparr>grid = Some b, history = [emptyGrid 8, b], currentStep = 1, currentRotation = rot\<rparr>"

definition placed_once1 :: hstate where
  "placed_once1 = \<lparr>grid = Some board_stem_up, history = [emptyGrid 8, board_stem_up], currentStep = 1\<rparr>"

section \<open>Reading the log and the result of a validator\<close>

text \<open>
  \<^verbatim>\<open>&&\<close> associates to the left in the source; the nesting does not matter.
\<close>

lemma andalso_assoc: "andalso (andalso a b) c = andalso a (andalso b c)"
  by (cases a; cases b; cases c) (auto simp: andalso_def split: sum.splits bool.splits)

lemma grid_read_wf:
  "wf_grid sz g \<Longrightarrow> 0 \<le> r \<Longrightarrow> r < int sz \<Longrightarrow> 0 \<le> c \<Longrightarrow> c < int sz \<Longrightarrow>
   grid_read (Some g) r c = Inr (Some (g ! nat r ! nat c))"
  by (auto simp: wf_grid_def grid_read_def js_nth_def list_all_length)

lemma andalso_ret [simp]: "andalso (ret True) b = b" "andalso (ret False) b = ret False"
  by (simp_all add: andalso_def ret_def)

lemma snd_andalso: "snd (andalso a b) = (case snd a of Inr True \<Rightarrow> snd b | x \<Rightarrow> x)"
  by (simp add: andalso_def split: sum.splits bool.splits)

lemma snd_ret [simp]: "snd (ret b) = Inr b" "fst (ret b) = []"
  by (simp_all add: ret_def)

lemma snd_not_grid [simp]:
  "snd (not_grid g r c) = (case grid_read g r c of Inl e \<Rightarrow> Inl e | Inr v \<Rightarrow> Inr (falsy v))"
  by (simp add: not_grid_def)

lemma snd_check_wf:
  "wf_grid sz g \<Longrightarrow> snd (cell_check sz (Some g) (r, c)) =
     Inr (0 \<le> r \<and> r < int sz \<and> 0 \<le> c \<and> c < int sz \<and> grid_read (Some g) r c = Inr (Some Null))"
proof -
  assume wf: "wf_grid sz g"
  define b where "b = (0 \<le> r \<and> r < int sz \<and> 0 \<le> c \<and> c < int sz)"
  have chk: "cell_check sz (Some g) (r, c) = andalso (ret b) (not_grid (Some g) r c)"
    by (simp add: cell_check_def b_def)
  show ?thesis
  proof (cases b)
    case True
    with wf have "grid_read (Some g) r c = Inr (Some (g ! nat r ! nat c))"
      by (simp add: grid_read_wf b_def)
    with True show ?thesis
      unfolding chk by (simp add: falsy_def b_def)
  next
    case False
    then have "snd (cell_check sz (Some g) (r, c)) = Inr False"
      unfolding chk by simp
    with False show ?thesis by (auto simp: b_def)
  qed
qed

lemma snd_every_Cons:
  "snd (every f (x # xs)) = (case snd (f x) of Inr True \<Rightarrow> snd (every f xs) | y \<Rightarrow> y)"
  by (simp add: snd_andalso)

lemma snd_every_wf:
  "wf_grid sz g \<Longrightarrow> snd (every (cell_check sz (Some g)) cells) = Inr (spec_accepts sz g cells)"
proof (induction cells)
  case Nil
  then show ?case by (simp add: spec_accepts_def)
next
  case (Cons a cells)
  obtain r c where a: "a = (r, c)" by (cases a)
  define b where "b = (0 \<le> r \<and> r < int sz \<and> 0 \<le> c \<and> c < int sz \<and> grid_read (Some g) r c = Inr (Some Null))"
  have hd: "snd (cell_check sz (Some g) a) = Inr b"
    unfolding a b_def using Cons.prems by (rule snd_check_wf)
  have sp: "spec_accepts sz g (a # cells) = (b \<and> spec_accepts sz g cells)"
    by (simp add: spec_accepts_def a b_def)
  show ?case
    unfolding snd_every_Cons hd sp using Cons.IH[OF Cons.prems] by (cases b) simp_all
qed

lemma isValidPlacement_wf:
  "wf_grid sz g \<Longrightarrow>
   isValidPlacement sz cellsf (Some g) row col rot = Inr (spec_accepts sz g (cellsf row col rot))"
  by (simp add: isValidPlacement_def isValidPlacement_log_def snd_every_wf)

lemma grid_read_row:
  "0 \<le> r \<Longrightarrow> r < int (length g) \<Longrightarrow> grid_read (Some g) r c = Inr (js_nth (g ! nat r) c)"
  by (simp add: grid_read_def js_nth_def)

lemma isValidPlacement1_wf:
  assumes wf: "wf_grid 8 g"
  shows "isValidPlacement1 (Some g) row col = Inr (spec_accepts 8 g (tetrominoCells1 row col))"
proof (cases "row < 0 \<or> row \<ge> 7 \<or> col < 0 \<or> col \<ge> 8")
  case True
  then have "isValidPlacement1 (Some g) row col = Inr False"
    by (simp add: isValidPlacement1_def isValidPlacement1_log_def)
  moreover from True have "\<not> spec_accepts 8 g (tetrominoCells1 row col)"
    by (auto simp: spec_accepts_def tetrominoCells1_def)
  ultimately show ?thesis by simp
next
  case False
  then have rng: "0 \<le> row" "row < 7" "0 \<le> col" "col < 8" by auto
  from wf have len: "length g = 8" and rows: "\<And>i. i < 8 \<Longrightarrow> length (g ! i) = 8"
    by (auto simp: wf_grid_def list_all_length)
  have r0: "\<And>c. grid_read (Some g) row c = Inr (js_nth (g ! nat row) c)"
    using rng len by (simp add: grid_read_row)
  have r1: "\<And>c. grid_read (Some g) (row + 1) c = Inr (js_nth (g ! nat (row + 1)) c)"
    using rng len by (simp add: grid_read_row)
  have l0: "length (g ! nat row) = 8" using rng by (simp add: rows)
  have l1: "length (g ! nat (row + 1)) = 8" using rng by (simp add: rows)
  show ?thesis
    using False rng
    by (auto simp: isValidPlacement1_def isValidPlacement1_log_def snd_andalso r0 r1 l0 l1
        js_nth_def falsy_def spec_accepts_def tetrominoCells1_def
        split: sum.splits bool.splits Cell.splits)
qed

text \<open>
  The validators of the components with rotations test the bounds before they read: every
  read they make is inside the board.
\<close>

lemma fst_cell_check:
  "(r, c) \<in> set (fst (cell_check sz g (r', c'))) \<Longrightarrow>
   0 \<le> r \<and> r < int sz \<and> 0 \<le> c \<and> c < int sz"
proof -
  assume a: "(r, c) \<in> set (fst (cell_check sz g (r', c')))"
  define b where "b = (0 \<le> r' \<and> r' < int sz \<and> 0 \<le> c' \<and> c' < int sz)"
  have chk: "cell_check sz g (r', c') = andalso (ret b) (not_grid g r' c')"
    by (simp add: cell_check_def b_def)
  show ?thesis
  proof (cases b)
    case True
    with a have "(r, c) = (r', c')" unfolding chk by (simp add: not_grid_def)
    with True show ?thesis by (simp add: b_def)
  next
    case False
    with a show ?thesis unfolding chk by simp
  qed
qed

lemma fst_andalso_subset: "set (fst (andalso a b)) \<subseteq> set (fst a) \<union> set (fst b)"
  by (auto simp: andalso_def split: sum.splits bool.splits)

lemma isValidPlacement_log_in_range:
  "(r, c) \<in> set (fst (isValidPlacement_log sz cellsf g row col rot)) \<Longrightarrow>
   0 \<le> r \<and> r < int sz \<and> 0 \<le> c \<and> c < int sz"
proof -
  have "(r, c) \<in> set (fst (every (cell_check sz g) cells)) \<Longrightarrow>
      0 \<le> r \<and> r < int sz \<and> 0 \<le> c \<and> c < int sz" for cells
  proof (induction cells)
    case Nil
    then show ?case by simp
  next
    case (Cons a cells)
    obtain r' c' where a: "a = (r', c')" by (cases a)
    from Cons.prems fst_andalso_subset[of "cell_check sz g a" "every (cell_check sz g) cells"]
    have "(r, c) \<in> set (fst (cell_check sz g (r', c'))) \<or> (r, c) \<in> set (fst (every (cell_check sz g) cells))"
      by (auto simp: a)
    then show ?case using fst_cell_check Cons.IH by blast
  qed
  then show "(r, c) \<in> set (fst (isValidPlacement_log sz cellsf g row col rot)) \<Longrightarrow>
   0 \<le> r \<and> r < int sz \<and> 0 \<le> c \<and> c < int sz"
    by (simp add: isValidPlacement_log_def)
qed

section \<open>Writing the four cells\<close>

lemma grid_write_row:
  "0 \<le> r \<Longrightarrow> r < int (length g) \<Longrightarrow>
   grid_write g r c = Inr (g[nat r := js_set Null (g ! nat r) c T])"
  by (simp add: grid_write_def js_nth_def)

lemma mark_cells_rows:
  "\<forall>(r, c) \<in> set cells. 0 \<le> r \<and> r < int (length g) \<Longrightarrow>
   \<exists>g'. mark_cells g cells = Inr g' \<and> length g' = length g"
proof (induction cells arbitrary: g)
  case Nil
  then show ?case by simp
next
  case (Cons a cells)
  obtain r c where a: "a = (r, c)" by (cases a)
  from Cons.prems have r: "0 \<le> r" "r < int (length g)" by (auto simp: a)
  let ?g = "g[nat r := js_set Null (g ! nat r) c T]"
  from Cons.prems have "\<forall>(r, c) \<in> set cells. 0 \<le> r \<and> r < int (length ?g)" by auto
  from Cons.IH[OF this] show ?case by (simp add: a grid_write_row r)
qed

lemma every_accept:
  "snd (every (cell_check sz g) cells) = Inr True \<Longrightarrow>
   \<forall>(r, c) \<in> set cells. 0 \<le> r \<and> r < int sz \<and> 0 \<le> c \<and> c < int sz
       \<and> (\<exists>v. grid_read g r c = Inr v \<and> falsy v)"
proof (induction cells)
  case Nil
  then show ?case by simp
next
  case (Cons a cells)
  obtain r c where a: "a = (r, c)" by (cases a)
  from Cons.prems have hd: "snd (cell_check sz g a) = Inr True"
    and tl: "snd (every (cell_check sz g) cells) = Inr True"
    by (auto simp: snd_andalso split: sum.splits bool.splits)
  define b where "b = (0 \<le> r \<and> r < int sz \<and> 0 \<le> c \<and> c < int sz)"
  have chk: "cell_check sz g a = andalso (ret b) (not_grid g r c)"
    by (simp add: cell_check_def b_def a)
  have b: b using hd unfolding chk by (cases b) simp_all
  with hd have "\<exists>v. grid_read g r c = Inr v \<and> falsy v"
    unfolding chk by (simp split: sum.splits)
  with b Cons.IH[OF tl] show ?case by (simp add: a b_def)
qed

lemma grid_read_Inr_row:
  "grid_read g r c = Inr v \<Longrightarrow> \<exists>rows. g = Some rows \<and> 0 \<le> r \<and> r < int (length rows)"
  by (auto simp: grid_read_def js_nth_def split: option.splits if_splits)

lemma accept_place:
  assumes "isValidPlacement sz cellsf (grid s) row col (currentRotation s) = Inr True"
    and ne: "cellsf row col (currentRotation s) \<noteq> []"
  shows "\<exists>g newGrid. grid s = Some g \<and> mark_cells g (cellsf row col (currentRotation s)) = Inr newGrid
          \<and> length newGrid = length g
          \<and> placeTetromino sz cellsf s row col =
              Inr (s\<lparr>grid := Some newGrid,
                     history := js_slice0 (history s) (currentStep s + 1) @ [newGrid],
                     currentStep := currentStep s + 1\<rparr>)"
proof -
  let ?cells = "cellsf row col (currentRotation s)"
  from assms have ev: "snd (every (cell_check sz (grid s)) ?cells) = Inr True"
    by (simp add: isValidPlacement_def isValidPlacement_log_def)
  note acc = every_accept[OF ev]
  show ?thesis
  proof (cases "grid s")
    case None
    from ne obtain r c where "(r, c) \<in> set ?cells" by (cases ?cells) auto
    with acc have "\<exists>v. grid_read (grid s) r c = Inr v" by auto
    with None show ?thesis by (simp add: grid_read_def)
  next
    case (Some g)
    have "\<forall>(r, c) \<in> set ?cells. 0 \<le> r \<and> r < int (length g)"
    proof (clarify)
      fix r c assume "(r, c) \<in> set ?cells"
      with acc obtain v where "grid_read (grid s) r c = Inr v" by auto
      from grid_read_Inr_row[OF this] Some show "0 \<le> r \<and> r < int (length g)" by simp
    qed
    from mark_cells_rows[OF this] obtain g' where "mark_cells g ?cells = Inr g'" "length g' = length g"
      by blast
    with Some assms show ?thesis by (simp add: placeTetromino_def)
  qed
qed

lemma wf_grid_nth:
  "wf_grid sz g \<Longrightarrow> i < sz \<Longrightarrow> length (g ! i) = sz"
  by (simp add: wf_grid_def list_all_length)

lemma wf_grid_length: "wf_grid sz g \<Longrightarrow> length g = sz"
  by (simp add: wf_grid_def)

lemma wf_grid_update:
  "wf_grid sz g \<Longrightarrow> length row = sz \<Longrightarrow> wf_grid sz (g[i := row])"
  by (auto simp: wf_grid_def list_all_iff dest!: subsetD[OF set_update_subset_insert])

lemma grid_write_wf:
  assumes wf: "wf_grid sz g" and r: "0 \<le> r" "r < int sz" and c: "0 \<le> c" "c < int sz"
  shows "\<exists>g'. grid_write g r c = Inr g' \<and> wf_grid sz g'
           \<and> (\<forall>r' c'. grid_read (Some g') r' c' =
                 (if r' = r \<and> c' = c then Inr (Some T) else grid_read (Some g) r' c'))"
proof -
  let ?row = "(g ! nat r)[nat c := T]"
  let ?g = "g[nat r := ?row]"
  have len: "length g = sz" using wf by (rule wf_grid_length)
  have lrow: "length (g ! nat r) = sz" using wf r by (simp add: wf_grid_nth)
  have set: "js_set Null (g ! nat r) c T = ?row"
    using c lrow by (simp add: js_set_def)
  have w: "grid_write g r c = Inr ?g"
    using r len by (simp add: grid_write_row set)
  have wf': "wf_grid sz ?g" using wf lrow by (simp add: wf_grid_update)
  have rd: "grid_read (Some ?g) r' c' =
        (if r' = r \<and> c' = c then Inr (Some T) else grid_read (Some g) r' c')" for r' c'
  proof (cases "0 \<le> r' \<and> r' < int sz")
    case False
    then show ?thesis using len r by (auto simp: grid_read_def js_nth_def)
  next
    case True
    show ?thesis
    proof (cases "r' = r")
      case rr: True
      show ?thesis
        using True len lrow c rr
        by (auto simp: grid_read_def js_nth_def nth_list_update nat_eq_iff)
    next
      case rr: False
      with True r have "nat r' \<noteq> nat r" by auto
      then show ?thesis
        using True len rr by (simp add: grid_read_def js_nth_def)
    qed
  qed
  from w wf' rd show ?thesis by blast
qed

lemma mark_cells_wf:
  "wf_grid sz g \<Longrightarrow>
   \<forall>(r, c) \<in> set cells. 0 \<le> r \<and> r < int sz \<and> 0 \<le> c \<and> c < int sz \<Longrightarrow>
   \<exists>g'. mark_cells g cells = Inr g' \<and> wf_grid sz g'
      \<and> (\<forall>r c. grid_read (Some g') r c =
            (if (r, c) \<in> set cells then Inr (Some T) else grid_read (Some g) r c))"
proof (induction cells arbitrary: g)
  case Nil
  then show ?case by simp
next
  case (Cons a cells)
  obtain r c where a: "a = (r, c)" by (cases a)
  from Cons.prems(2) have rc: "0 \<le> r" "r < int sz" "0 \<le> c" "c < int sz"
    and rest: "\<forall>(r, c) \<in> set cells. 0 \<le> r \<and> r < int sz \<and> 0 \<le> c \<and> c < int sz"
    by (auto simp: a)
  from grid_write_wf[OF Cons.prems(1) rc] obtain g1 where
    g1: "grid_write g r c = Inr g1" "wf_grid sz g1"
    "\<And>r' c'. grid_read (Some g1) r' c' =
        (if r' = r \<and> c' = c then Inr (Some T) else grid_read (Some g) r' c')"
    by blast
  from Cons.IH[OF g1(2) rest] obtain g' where
    g': "mark_cells g1 cells = Inr g'" "wf_grid sz g'"
    "\<And>r c. grid_read (Some g') r c =
        (if (r, c) \<in> set cells then Inr (Some T) else grid_read (Some g1) r c)"
    by blast
  have "mark_cells g (a # cells) = Inr g'" by (simp add: a g1(1) g'(1))
  moreover have "\<forall>r' c'. grid_read (Some g') r' c' =
        (if (r', c') \<in> set (a # cells) then Inr (Some T) else grid_read (Some g) r' c')"
    by (auto simp: a g'(3) g1(3))
  ultimately show ?case using g'(2) by blast
qed

lemma spec_accepts_iff:
  "spec_accepts sz g cells \<longleftrightarrow>
   (\<forall>(r, c) \<in> set cells. 0 \<le> r \<and> r < int sz \<and> 0 \<le> c \<and> c < int sz
        \<and> grid_read (Some g) r c = Inr (Some Null))"
  by (auto simp: spec_accepts_def list_all_iff)

section \<open>The invariant of a session\<close>

lemma js_slice0_cursor:
  "0 \<le> k \<Longrightarrow> k < int (length xs) \<Longrightarrow> js_slice0 xs (k + 1) = take (nat k + 1) xs"
  by (simp add: js_slice0_def Let_def min_def nat_add_distrib)

lemma session_inv_grid:
  "session_inv sz s \<Longrightarrow>
   \<exists>g. grid s = Some g \<and> g = history s ! nat (currentStep s) \<and> wf_grid sz g"
  by (auto simp: session_inv_def js_nth_def list_all_length)

lemma session_inv_undo: "session_inv sz s \<Longrightarrow> session_inv sz (undo s)"
  by (auto simp: session_inv_def undo_def)

lemma session_inv_redo: "session_inv sz s \<Longrightarrow> session_inv sz (redo s)"
  by (auto simp: session_inv_def redo_def)

lemma wf_emptyGrid: "wf_grid sz (emptyGrid sz)"
  by (simp add: wf_grid_def emptyGrid_def list_all_length)

lemma session_inv_reset: "session_inv sz (reset sz s)"
  by (simp add: session_inv_def reset_def js_nth_def wf_emptyGrid)

lemma session_inv_rotateShape: "session_inv sz s \<Longrightarrow> session_inv sz (rotateShape r s)"
  by (simp add: session_inv_def rotateShape_def)

lemma session_inv_init: "session_inv sz (init sz)"
  by (simp add: session_inv_def init_def js_nth_def wf_emptyGrid)

lemma session_inv_init1: "session_inv 8 init1"
  by (simp add: session_inv_def init1_def js_nth_def wf_emptyGrid)

lemma session_inv_record:
  assumes inv: "session_inv sz s" and wf: "wf_grid sz newGrid"
  shows "session_inv sz
           (s\<lparr>grid := Some newGrid,
              history := js_slice0 (history s) (currentStep s + 1) @ [newGrid],
              currentStep := currentStep s + 1\<rparr>)"
proof -
  from inv have k: "0 \<le> currentStep s" "currentStep s < int (length (history s))"
    and all: "list_all (wf_grid sz) (history s)"
    by (auto simp: session_inv_def)
  have sl: "js_slice0 (history s) (currentStep s + 1) = take (nat (currentStep s) + 1) (history s)"
    using k by (rule js_slice0_cursor)
  have len: "length (take (nat (currentStep s) + 1) (history s)) = nat (currentStep s) + 1"
    using k by simp
  have wfs: "list_all (wf_grid sz) (take (nat (currentStep s) + 1) (history s))"
    using all by (auto simp: list_all_iff dest: in_set_takeD)
  have "js_nth (take (nat (currentStep s) + 1) (history s) @ [newGrid]) (currentStep s + 1) = Some newGrid"
    using k len by (simp add: js_nth_def nth_append nat_add_distrib)
  with k len wfs wf show ?thesis
    by (simp add: session_inv_def sl)
qed

lemma session_inv_placeTetromino:
  assumes inv: "session_inv sz s"
  shows "\<exists>s'. placeTetromino sz cellsf s row col = Inr s' \<and> session_inv sz s'"
proof -
  from session_inv_grid[OF inv] obtain g where g: "grid s = Some g" "wf_grid sz g" by blast
  let ?cells = "cellsf row col (currentRotation s)"
  have v: "isValidPlacement sz cellsf (grid s) row col (currentRotation s) = Inr (spec_accepts sz g ?cells)"
    unfolding g(1) using g(2) by (rule isValidPlacement_wf)
  show ?thesis
  proof (cases "spec_accepts sz g ?cells")
    case False
    with v inv show ?thesis by (simp add: placeTetromino_def)
  next
    case True
    then have "\<forall>(r, c) \<in> set ?cells. 0 \<le> r \<and> r < int sz \<and> 0 \<le> c \<and> c < int sz"
      by (auto simp: spec_accepts_iff)
    from mark_cells_wf[OF g(2) this] obtain g' where
      g': "mark_cells g ?cells = Inr g'" "wf_grid sz g'" by blast
    from v True g g' session_inv_record[OF inv g'(2)] show ?thesis
      by (simp add: placeTetromino_def)
  qed
qed

lemma session_inv_placeTetromino1:
  assumes inv: "session_inv 8 s"
  shows "\<exists>s'. placeTetromino1 s row col = Inr s' \<and> session_inv 8 s'"
proof -
  from session_inv_grid[OF inv] obtain g where g: "grid s = Some g" "wf_grid 8 g" by blast
  let ?cells = "tetrominoCells1 row col"
  have v: "isValidPlacement1 (grid s) row col = Inr (spec_accepts 8 g ?cells)"
    unfolding g(1) using g(2) by (rule isValidPlacement1_wf)
  show ?thesis
  proof (cases "spec_accepts 8 g ?cells")
    case False
    with v inv show ?thesis by (simp add: placeTetromino1_def)
  next
    case True
    then have "\<forall>(r, c) \<in> set ?cells. 0 \<le> r \<and> r < int 8 \<and> 0 \<le> c \<and> c < int 8"
      by (auto simp: spec_accepts_iff)
    from mark_cells_wf[OF g(2) this] obtain g' where
      g': "mark_cells g ?cells = Inr g'" "wf_grid 8 g'" by blast
    from v True g g' session_inv_record[OF inv g'(2)] show ?thesis
      by (simp add: placeTetromino1_def)
  qed
qed

lemma session_inv_handle:
  "session_inv sz s \<Longrightarrow> \<exists>s'. handle sz cellsf s e = Inr s' \<and> session_inv sz s'"
  by (cases e)
    (simp_all add: session_inv_placeTetromino session_inv_undo session_inv_redo
      session_inv_reset session_inv_rotateShape)

lemma session_inv_handle1:
  "session_inv 8 s \<Longrightarrow> \<exists>s'. handle1 s e = Inr s' \<and> session_inv 8 s'"
  by (cases e)
    (simp_all add: session_inv_placeTetromino1 session_inv_undo session_inv_redo session_inv_reset)

lemma session_inv_run:
  "session_inv sz s \<Longrightarrow> \<exists>s'. run sz cellsf s es = Inr s' \<and> session_inv sz s'"
proof (induction es arbitrary: s)
  case Nil
  then show ?case by simp
next
  case (Cons e es)
  from session_inv_handle[OF Cons.prems] obtain s1 where
    s1: "handle sz cellsf s e = Inr s1" "session_inv sz s1" by blast
  from Cons.IH[OF s1(2)] s1(1) show ?case by simp
qed

lemma session_inv_run1:
  "session_inv 8 s \<Longrightarrow> \<exists>s'. run1 s es = Inr s' \<and> session_inv 8 s'"
proof (induction es arbitrary: s)
  case Nil
  then show ?case by simp
next
  case (Cons e es)
  from session_inv_handle1[OF Cons.prems] obtain s1 where
    s1: "handle1 s e = Inr s1" "session_inv 8 s1" by blast
  from Cons.IH[OF s1(2)] s1(1) show ?case by simp
qed

lemma redo_undo:
  "session_inv sz s \<Longrightarrow> 0 < currentStep s \<Longrightarrow> redo (undo s) = s"
  by (simp add: session_inv_def undo_def redo_def)

section \<open>The geometry tables and the empty board\<close>

lemma geometry_four:
  "cellsf = getTetrominoCells \<or> cellsf = getTetrominoCells2 \<Longrightarrow>
   length (cellsf row col rot) = 4 \<and> distinct (cellsf row col rot)"
  by (cases rot) auto

lemma geometry_nonempty:
  "cellsf = getTetrominoCells \<or> cellsf = getTetrominoCells2 \<Longrightarrow> cellsf row col rot \<noteq> []"
  by (cases rot) auto

lemma occupied_emptyGrid: "occupied (emptyGrid sz) = []"
  by (auto simp: occupied_def emptyGrid_def filter_empty_conv)

section \<open>The claims\<close>

subsection \<open>C1: the offsets of rotation 0 and the scenario at anchor (0, 1)\<close>

text \<open>
  C1, with the rotation to which each offset table gives the pattern of the claim. On
  the board of size 8 the four cells for the anchor \<open>(r, c)\<close> are
  \<open>(r, c), (r + 1, c), (r + 1, c - 1), (r + 1, c + 1)\<close> at rotation 0 in the second document of
  \<^verbatim>\<open>src/src/App.tsx\<close> (lines 338-369), and at rotation 180 in its first document and in
  \<^verbatim>\<open>src/unnamed/part_000\<close>, where rotation 0 gives
  \<open>(r + 1, c), (r, c), (r, c - 1), (r, c + 1)\<close>. With that rotation selected, placing at the
  anchor \<open>(0, 1)\<close> on the empty board occupies exactly the cells
  \<open>(0, 1), (1, 1), (1, 0), (1, 2)\<close>; placing at \<open>(0, 1)\<close> again is rejected and changes
  nothing; undo then gives the empty board, and redo after it gives back the state with
  the single placement.
\<close>

theorem C1_geometry_scenario:
  "getTetrominoCells2 r c R0 = [(r, c), (r + 1, c), (r + 1, c - 1), (r + 1, c + 1)]
   \<and> getTetrominoCells r c R180 = [(r, c), (r + 1, c), (r + 1, c - 1), (r + 1, c + 1)]
   \<and> getTetrominoCells r c R0 = [(r + 1, c), (r, c), (r, c - 1), (r, c + 1)]
   \<and> set (occupied (emptyGrid 8)) = {}
   \<and> set (occupied board_stem_up) = {(0, 1), (1, 1), (1, 0), (1, 2)}
   \<and> placeTetromino 8 getTetrominoCells2 (init 8) 0 1 = Inr (placed_once board_stem_up R0)
   \<and> placeTetromino 8 getTetrominoCells2 (placed_once board_stem_up R0) 0 1
        = Inr (placed_once board_stem_up R0)
   \<and> placeTetromino 8 getTetrominoCells (rotateShape R180 (init 8)) 0 1
        = Inr (placed_once board_stem_up R180)
   \<and> placeTetromino 8 getTetrominoCells (placed_once board_stem_up R180) 0 1
        = Inr (placed_once board_stem_up R180)
   \<and> grid (undo (placed_once board_stem_up rot)) = Some (emptyGrid 8)
   \<and> redo (undo (placed_once board_stem_up rot)) = placed_once board_stem_up rot"
proof -
  have a: "set (occupied (emptyGrid 8)) = {}" by code_simp
  have b: "set (occupied board_stem_up) = {(0, 1), (1, 1), (1, 0), (1, 2)}" by code_simp
  have p1: "placeTetromino 8 getTetrominoCells2 (init 8) 0 1 = Inr (placed_once board_stem_up R0)"
    by code_simp
  have p2: "placeTetromino 8 getTetrominoCells2 (placed_once board_stem_up R0) 0 1
        = Inr (placed_once board_stem_up R0)"
    by code_simp
  have p3: "placeTetromino 8 getTetrominoCells (rotateShape R180 (init 8)) 0 1
        = Inr (placed_once board_stem_up R180)"
    by code_simp
  have p4: "placeTetromino 8 getTetrominoCells (placed_once board_stem_up R180) 0 1
        = Inr (placed_once board_stem_up R180)"
    by code_simp
  have u: "grid (undo (placed_once board_stem_up rot)) = Some (emptyGrid 8)"
    by (simp add: undo_def placed_once_def js_nth_def)
  have r: "redo (undo (placed_once board_stem_up rot)) = placed_once board_stem_up rot"
    by (simp add: undo_def redo_def placed_once_def js_nth_def)
  from a b p1 p2 p3 p4 u r show ?thesis by simp
qed

text \<open>
  The claim as written fails for the first document of \<^verbatim>\<open>src/src/App.tsx\<close> and for
  \<^verbatim>\<open>src/unnamed/part_000\<close>: at rotation 0 and anchor \<open>(0, 1)\<close> their geometry returns
  \<open>(1, 1), (0, 1), (0, 0), (0, 2)\<close>, and the placement on the empty board occupies
  \<open>(0, 0), (0, 1), (0, 2), (1, 1)\<close>. The comment on \<^verbatim>\<open>case 0\<close> in that
  table draws the bar above the stem, which is what its offsets give.
\<close>

theorem C1_counterexample:
  "getTetrominoCells 0 1 R0 = [(1, 1), (0, 1), (0, 0), (0, 2)]
   \<and> set (getTetrominoCells 0 1 R0) \<noteq> {(0, 1), (1, 1), (1, 0), (1, 2)}
   \<and> placeTetromino 8 getTetrominoCells (init 8) 0 1 = Inr (placed_once board_bar_up R0)
   \<and> set (occupied board_bar_up) = {(0, 0), (0, 1), (0, 2), (1, 1)}
   \<and> set (occupied board_bar_up) \<noteq> {(0, 1), (1, 1), (1, 0), (1, 2)}"
proof -
  have a: "set (getTetrominoCells 0 1 R0) \<noteq> {(0, 1), (1, 1), (1, 0), (1, 2)}" by code_simp
  have b: "placeTetromino 8 getTetrominoCells (init 8) 0 1 = Inr (placed_once board_bar_up R0)"
    by code_simp
  have c: "set (occupied board_bar_up) = {(0, 0), (0, 1), (0, 2), (1, 1)}" by code_simp
  have d: "set (occupied board_bar_up) \<noteq> {(0, 1), (1, 1), (1, 0), (1, 2)}" by code_simp
  from a b c d show ?thesis by simp
qed

subsection \<open>C2: the validator accepts exactly the free placements inside the board\<close>

text \<open>
  C2. On every board of size N, for every anchor and every rotation, the validator returns
  (without raising) whether each of the four cells of the geometry has its row and its
  column in \<open>[0, N)\<close> and is Empty. This holds for both offset tables, and on the board of
  size 8 for the hand-written validator of \<^verbatim>\<open>src/unnamed/part_001\<close>
  (\<^verbatim>\<open>row < 0 || row >= 7 || col < 0 || col >= 8\<close>, then \<^verbatim>\<open>col > 0 && col < 7\<close>) with the
  four cells its placement writes.
\<close>

theorem C2_validator_iff:
  assumes "wf_grid sz g" and "wf_grid 8 g1"
  shows "isValidPlacement sz getTetrominoCells (Some g) row col rot
           = Inr (spec_accepts sz g (getTetrominoCells row col rot))
       \<and> isValidPlacement sz getTetrominoCells2 (Some g) row col rot
           = Inr (spec_accepts sz g (getTetrominoCells2 row col rot))
       \<and> isValidPlacement1 (Some g1) row col
           = Inr (spec_accepts 8 g1 (tetrominoCells1 row col))"
  using assms by (simp add: isValidPlacement_wf isValidPlacement1_wf)

theorem C2_validator_iff_witness:
  "wf_grid 8 board_stem_up
   \<and> isValidPlacement 8 getTetrominoCells (Some board_stem_up) 2 1 R0 = Inr True
   \<and> isValidPlacement 8 getTetrominoCells2 (Some board_stem_up) 0 2 R270 = Inr False
   \<and> isValidPlacement1 (Some board_stem_up) 6 7 = Inr False
   \<and> isValidPlacement1 (Some board_stem_up) 6 6 = Inr True"
proof -
  have wf: "wf_grid 8 board_stem_up" by code_simp
  have a: "spec_accepts 8 board_stem_up (getTetrominoCells 2 1 R0) = True" by code_simp
  have b: "spec_accepts 8 board_stem_up (getTetrominoCells2 0 2 R270) = False" by code_simp
  have c: "spec_accepts 8 board_stem_up (tetrominoCells1 6 7) = False" by code_simp
  have d: "spec_accepts 8 board_stem_up (tetrominoCells1 6 6) = True" by code_simp
  from C2_validator_iff[OF wf wf, of 2 1 R0] a
  have 1: "isValidPlacement 8 getTetrominoCells (Some board_stem_up) 2 1 R0 = Inr True" by simp
  from C2_validator_iff[OF wf wf, of 0 2 R270] b
  have 2: "isValidPlacement 8 getTetrominoCells2 (Some board_stem_up) 0 2 R270 = Inr False" by simp
  from C2_validator_iff[OF wf wf, of 6 7] c
  have 3: "isValidPlacement1 (Some board_stem_up) 6 7 = Inr False" by simp
  from C2_validator_iff[OF wf wf, of 6 6] d
  have 4: "isValidPlacement1 (Some board_stem_up) 6 6 = Inr True" by simp
  from wf 1 2 3 4 show ?thesis by simp
qed

subsection \<open>C3: a rejected placement changes nothing\<close>

text \<open>
  C3. In every state and for every anchor, when the validator rejects, \<^verbatim>\<open>placeTetromino\<close>
  returns the state it was given: grid, history and cursor (and rotation) are unchanged.
  This holds for the components with rotations, whatever the board size and the offset
  table, and for the single-orientation component.
\<close>

theorem C3_rejected_place_unchanged:
  "(isValidPlacement sz cellsf (grid s) row col (currentRotation s) = Inr False
      \<longrightarrow> placeTetromino sz cellsf s row col = Inr s)
   \<and> (isValidPlacement1 (grid t) row col = Inr False
      \<longrightarrow> placeTetromino1 t row col = Inr t)"
  by (simp add: placeTetromino_def placeTetromino1_def)

theorem C3_rejected_place_unchanged_witness:
  "isValidPlacement 8 getTetrominoCells2 (grid (placed_once board_stem_up R0)) 0 1
       (currentRotation (placed_once board_stem_up R0)) = Inr False
   \<and> placeTetromino 8 getTetrominoCells2 (placed_once board_stem_up R0) 0 1
       = Inr (placed_once board_stem_up R0)
   \<and> isValidPlacement1 (grid placed_once1) 0 1 = Inr False
   \<and> placeTetromino1 placed_once1 0 1 = Inr placed_once1"
proof -
  have a: "isValidPlacement 8 getTetrominoCells2 (grid (placed_once board_stem_up R0)) 0 1
       (currentRotation (placed_once board_stem_up R0)) = Inr False"
    by code_simp
  have b: "isValidPlacement1 (grid placed_once1) 0 1 = Inr False" by code_simp
  from a C3_rejected_place_unchanged[of 8 getTetrominoCells2 "placed_once board_stem_up R0" 0 1]
  have 1: "placeTetromino 8 getTetrominoCells2 (placed_once board_stem_up R0) 0 1
       = Inr (placed_once board_stem_up R0)" by blast
  from b C3_rejected_place_unchanged[of _ _ _ 0 1 placed_once1]
  have 2: "placeTetromino1 placed_once1 0 1 = Inr placed_once1" by blast
  from a b 1 2 show ?thesis by simp
qed

subsection \<open>C4: an accepted placement changes exactly its four cells\<close>

text \<open>
  C4. For every state whose grid is a board of size N and every anchor, when the validator
  accepts, \<^verbatim>\<open>placeTetromino\<close> succeeds and its new grid is again a board of size N; the
  geometry gives four distinct cells, each of them was Empty and is Occupied afterwards,
  and a read at any other index pair gives what it gave before.
\<close>

theorem C4_accepted_place_frame:
  assumes geo: "cellsf = getTetrominoCells \<or> cellsf = getTetrominoCells2"
    and g: "grid s = Some g" and wf: "wf_grid sz g"
    and acc: "isValidPlacement sz cellsf (grid s) row col (currentRotation s) = Inr True"
  shows "\<exists>s' g'. placeTetromino sz cellsf s row col = Inr s' \<and> grid s' = Some g' \<and> wf_grid sz g'
      \<and> length (cellsf row col (currentRotation s)) = 4
      \<and> distinct (cellsf row col (currentRotation s))
      \<and> (\<forall>(r, c) \<in> set (cellsf row col (currentRotation s)).
            grid_read (Some g) r c = Inr (Some Null) \<and> grid_read (Some g') r c = Inr (Some T))
      \<and> (\<forall>r c. (r, c) \<notin> set (cellsf row col (currentRotation s))
            \<longrightarrow> grid_read (Some g') r c = grid_read (Some g) r c)"
proof -
  let ?cells = "cellsf row col (currentRotation s)"
  from acc have sa: "spec_accepts sz g ?cells"
    by (simp add: g isValidPlacement_wf[OF wf])
  then have before: "\<forall>(r, c) \<in> set ?cells. grid_read (Some g) r c = Inr (Some Null)"
    and rng: "\<forall>(r, c) \<in> set ?cells. 0 \<le> r \<and> r < int sz \<and> 0 \<le> c \<and> c < int sz"
    by (auto simp: spec_accepts_iff)
  from mark_cells_wf[OF wf rng] obtain g' where
    g': "mark_cells g ?cells = Inr g'" "wf_grid sz g'"
    "\<And>r c. grid_read (Some g') r c =
        (if (r, c) \<in> set ?cells then Inr (Some T) else grid_read (Some g) r c)"
    by blast
  let ?s' = "s\<lparr>grid := Some g',
               history := js_slice0 (history s) (currentStep s + 1) @ [g'],
               currentStep := currentStep s + 1\<rparr>"
  have p: "placeTetromino sz cellsf s row col = Inr ?s'"
    using acc g g'(1) by (simp add: placeTetromino_def)
  have gs: "grid ?s' = Some g'" by simp
  have four: "length ?cells = 4" "distinct ?cells"
    using geometry_four[OF geo] by auto
  have marked: "\<forall>(r, c) \<in> set ?cells.
      grid_read (Some g) r c = Inr (Some Null) \<and> grid_read (Some g') r c = Inr (Some T)"
    using before g'(3) by auto
  have others: "\<forall>r c. (r, c) \<notin> set ?cells \<longrightarrow> grid_read (Some g') r c = grid_read (Some g) r c"
    using g'(3) by simp
  from p gs g'(2) four marked others show ?thesis by blast
qed

theorem C4_accepted_place_frame_witness:
  "wf_grid 8 (emptyGrid 8)
   \<and> isValidPlacement 8 getTetrominoCells (grid (init 8)) 0 1 (currentRotation (init 8)) = Inr True
   \<and> (\<exists>s' g'. placeTetromino 8 getTetrominoCells (init 8) 0 1 = Inr s' \<and> grid s' = Some g'
        \<and> wf_grid 8 g'
        \<and> length (getTetrominoCells 0 1 (currentRotation (init 8))) = 4
        \<and> distinct (getTetrominoCells 0 1 (currentRotation (init 8)))
        \<and> (\<forall>(r, c) \<in> set (getTetrominoCells 0 1 (currentRotation (init 8))).
              grid_read (Some (emptyGrid 8)) r c = Inr (Some Null)
              \<and> grid_read (Some g') r c = Inr (Some T))
        \<and> (\<forall>r c. (r, c) \<notin> set (getTetrominoCells 0 1 (currentRotation (init 8)))
              \<longrightarrow> grid_read (Some g') r c = grid_read (Some (emptyGrid 8)) r c))"
proof -
  have wf: "wf_grid 8 (emptyGrid 8)" by code_simp
  have g: "grid (init 8) = Some (emptyGrid 8)" by (simp add: init_def)
  have acc: "isValidPlacement 8 getTetrominoCells (grid (init 8)) 0 1 (currentRotation (init 8)) = Inr True"
    by code_simp
  have geo: "getTetrominoCells = getTetrominoCells \<or> getTetrominoCells = getTetrominoCells2"
    by simp
  from wf acc C4_accepted_place_frame[OF geo g wf acc] show ?thesis by blast
qed

subsection \<open>C5: undo then redo\<close>

text \<open>
  C5. In every state reached from the initial state by a sequence of events, if the cursor
  is greater than 0 then undo followed at once by redo gives back the same state, and so
  the same board. This holds for the components with rotations and for the
  single-orientation component.
\<close>

theorem C5_undo_redo_roundtrip:
  "(run sz cellsf (init sz) es = Inr s \<longrightarrow> 0 < currentStep s
      \<longrightarrow> redo (undo s) = s \<and> grid (redo (undo s)) = grid s)
   \<and> (run1 init1 es1 = Inr t \<longrightarrow> 0 < currentStep t
      \<longrightarrow> redo (undo t) = t \<and> grid (redo (undo t)) = grid t)"
proof -
  have a: "redo (undo s) = s" if "run sz cellsf (init sz) es = Inr s" "0 < currentStep s"
  proof -
    from session_inv_run[OF session_inv_init, of sz cellsf es] that(1)
    have "session_inv sz s" by auto
    then show ?thesis using that(2) by (rule redo_undo)
  qed
  have b: "redo (undo t) = t" if "run1 init1 es1 = Inr t" "0 < currentStep t"
  proof -
    from session_inv_run1[OF session_inv_init1, of es1] that(1)
    have "session_inv 8 t" by auto
    then show ?thesis using that(2) by (rule redo_undo)
  qed
  from a b show ?thesis by simp
qed

theorem C5_undo_redo_roundtrip_witness:
  "run 8 getTetrominoCells2 (init 8) [Place 0 1] = Inr (placed_once board_stem_up R0)
   \<and> 0 < currentStep (placed_once board_stem_up R0)
   \<and> redo (undo (placed_once board_stem_up R0)) = placed_once board_stem_up R0
   \<and> grid (redo (undo (placed_once board_stem_up R0))) = Some board_stem_up
   \<and> run1 init1 [Place1 0 1] = Inr placed_once1
   \<and> 0 < currentStep placed_once1
   \<and> redo (undo placed_once1) = placed_once1"
proof -
  have r: "run 8 getTetrominoCells2 (init 8) [Place 0 1] = Inr (placed_once board_stem_up R0)"
    by code_simp
  have c: "0 < currentStep (placed_once board_stem_up R0)" by (simp add: placed_once_def)
  have g: "grid (placed_once board_stem_up R0) = Some board_stem_up" by (simp add: placed_once_def)
  have r1: "run1 init1 [Place1 0 1] = Inr placed_once1" by code_simp
  have c1: "0 < currentStep placed_once1" by (simp add: placed_once1_def)
  from C5_undo_redo_roundtrip[of 8 getTetrominoCells2 "[Place 0 1]" "placed_once board_stem_up R0"
      "[Place1 0 1]" placed_once1] r c g r1 c1
  show ?thesis by simp
qed

subsection \<open>C6: a placement after undo drops the redo snapshots\<close>

text \<open>
  C6. In every state whose cursor is an index of the history other than the last, an
  accepted placement succeeds; the new history is the old one up to and including the
  cursor followed by the new board, the cursor moves to the new last index, and redo is
  then a no-op.
\<close>

theorem C6_place_after_undo_truncates:
  assumes geo: "cellsf = getTetrominoCells \<or> cellsf = getTetrominoCells2"
    and lo: "0 \<le> currentStep s"
    and hi: "currentStep s < int (length (history s)) - 1"
    and acc: "isValidPlacement sz cellsf (grid s) row col (currentRotation s) = Inr True"
  shows "\<exists>s' newGrid. placeTetromino sz cellsf s row col = Inr s'
      \<and> grid s' = Some newGrid
      \<and> history s' = take (nat (currentStep s) + 1) (history s) @ [newGrid]
      \<and> currentStep s' = currentStep s + 1
      \<and> currentStep s' = int (length (history s')) - 1
      \<and> redo s' = s'"
proof -
  from accept_place[OF acc geometry_nonempty[OF geo]] obtain newGrid where
    p: "placeTetromino sz cellsf s row col =
          Inr (s\<lparr>grid := Some newGrid,
                 history := js_slice0 (history s) (currentStep s + 1) @ [newGrid],
                 currentStep := currentStep s + 1\<rparr>)"
    by blast
  let ?s' = "s\<lparr>grid := Some newGrid,
               history := js_slice0 (history s) (currentStep s + 1) @ [newGrid],
               currentStep := currentStep s + 1\<rparr>"
  from lo hi have sl: "js_slice0 (history s) (currentStep s + 1) = take (nat (currentStep s) + 1) (history s)"
    by (simp add: js_slice0_cursor)
  have h: "history ?s' = take (nat (currentStep s) + 1) (history s) @ [newGrid]"
    by (simp add: sl)
  have len: "int (length (history ?s')) - 1 = currentStep s + 1"
    using lo hi by (simp add: sl)
  have c: "currentStep ?s' = currentStep s + 1" by simp
  have r: "redo ?s' = ?s'"
    unfolding redo_def using len c by simp
  have g: "grid ?s' = Some newGrid" by simp
  from p g h c len r show ?thesis by (metis (no_types))
qed

theorem C6_place_after_undo_truncates_witness:
  "0 \<le> currentStep (undo (placed_once board_stem_up R0))
   \<and> currentStep (undo (placed_once board_stem_up R0))
        < int (length (history (undo (placed_once board_stem_up R0)))) - 1
   \<and> isValidPlacement 8 getTetrominoCells2 (grid (undo (placed_once board_stem_up R0))) 4 4
        (currentRotation (undo (placed_once board_stem_up R0))) = Inr True
   \<and> (\<exists>s' newGrid.
        placeTetromino 8 getTetrominoCells2 (undo (placed_once board_stem_up R0)) 4 4 = Inr s'
        \<and> grid s' = Some newGrid
        \<and> history s' = take (nat (currentStep (undo (placed_once board_stem_up R0))) + 1)
                          (history (undo (placed_once board_stem_up R0))) @ [newGrid]
        \<and> currentStep s' = currentStep (undo (placed_once board_stem_up R0)) + 1
        \<and> currentStep s' = int (length (history s')) - 1
        \<and> redo s' = s')"
proof -
  have lo: "0 \<le> currentStep (undo (placed_once board_stem_up R0))" by code_simp
  have hi: "currentStep (undo (placed_once board_stem_up R0))
        < int (length (history (undo (placed_once board_stem_up R0)))) - 1"
    by code_simp
  have acc: "isValidPlacement 8 getTetrominoCells2 (grid (undo (placed_once board_stem_up R0))) 4 4
        (currentRotation (undo (placed_once board_stem_up R0))) = Inr True"
    by code_simp
  have geo: "getTetrominoCells2 = getTetrominoCells \<or> getTetrominoCells2 = getTetrominoCells2"
    by simp
  from lo hi acc C6_place_after_undo_truncates[OF geo lo hi acc] show ?thesis by blast
qed

subsection \<open>C7: undo and redo at the ends of the history\<close>

text \<open>
  C7. Undo returns the state unchanged when the cursor is 0, and redo returns it unchanged
  when the cursor is the last index. On a fresh session undo leaves the cursor at 0; after
  a single placement (accepted or not) redo changes nothing and the cursor is the last
  index. Neither handler can raise: both are functions from states to states, and in a
  state that satisfies the session invariant their result satisfies it too, so the grid
  they select is a snapshot of the history.
\<close>

theorem C7_undo_redo_noop_at_ends:
  "(currentStep s = 0 \<longrightarrow> undo s = s)
   \<and> (currentStep s = int (length (history s)) - 1 \<longrightarrow> redo s = s)
   \<and> undo (init sz) = init sz \<and> currentStep (undo (init sz)) = 0
   \<and> undo init1 = init1 \<and> currentStep (undo init1) = 0
   \<and> (placeTetromino sz cellsf (init sz) row col = Inr s1
        \<longrightarrow> redo s1 = s1 \<and> currentStep s1 = int (length (history s1)) - 1)
   \<and> (placeTetromino1 init1 row col = Inr t1
        \<longrightarrow> redo t1 = t1 \<and> currentStep t1 = int (length (history t1)) - 1)
   \<and> (session_inv sz s \<longrightarrow> session_inv sz (undo s) \<and> session_inv sz (redo s))"
proof -
  have a: "currentStep s = 0 \<longrightarrow> undo s = s" by (simp add: undo_def)
  have b: "currentStep s = int (length (history s)) - 1 \<longrightarrow> redo s = s" by (simp add: redo_def)
  have c: "undo (init sz) = init sz" "currentStep (undo (init sz)) = 0"
    by (simp_all add: undo_def init_def)
  have d: "undo init1 = init1" "currentStep (undo init1) = 0"
    by (simp_all add: undo_def init1_def)
  have e: "placeTetromino sz cellsf (init sz) row col = Inr s1
        \<longrightarrow> redo s1 = s1 \<and> currentStep s1 = int (length (history s1)) - 1"
    by (auto simp: placeTetromino_def init_def redo_def js_slice0_def
        split: sum.splits bool.splits)
  have f: "placeTetromino1 init1 row col = Inr t1
        \<longrightarrow> redo t1 = t1 \<and> currentStep t1 = int (length (history t1)) - 1"
    by (auto simp: placeTetromino1_def init1_def redo_def js_slice0_def
        split: sum.splits bool.splits)
  have g: "session_inv sz s \<longrightarrow> session_inv sz (undo s) \<and> session_inv sz (redo s)"
    by (simp add: session_inv_undo session_inv_redo)
  from a b c d e f g show ?thesis by blast
qed

theorem C7_undo_redo_noop_at_ends_witness:
  "currentStep (init 8) = 0 \<and> undo (init 8) = init 8
   \<and> currentStep (placed_once board_stem_up R0)
        = int (length (history (placed_once board_stem_up R0))) - 1
   \<and> redo (placed_once board_stem_up R0) = placed_once board_stem_up R0
   \<and> placeTetromino 8 getTetrominoCells2 (init 8) 0 1 = Inr (placed_once board_stem_up R0)
   \<and> placeTetromino1 init1 0 1 = Inr placed_once1
   \<and> redo placed_once1 = placed_once1
   \<and> session_inv 8 (placed_once board_stem_up R0)
   \<and> session_inv 8 (undo (placed_once board_stem_up R0))"
proof -
  have a: "currentStep (init 8) = 0" by (simp add: init_def)
  have b: "currentStep (placed_once board_stem_up R0)
        = int (length (history (placed_once board_stem_up R0))) - 1"
    by (simp add: placed_once_def)
  have p: "placeTetromino 8 getTetrominoCells2 (init 8) 0 1 = Inr (placed_once board_stem_up R0)"
    by code_simp
  have p1: "placeTetromino1 init1 0 1 = Inr placed_once1" by code_simp
  have i: "session_inv 8 (placed_once board_stem_up R0)" by code_simp
  note t = C7_undo_redo_noop_at_ends[where sz = 8 and cellsf = getTetrominoCells2
      and row = 0 and col = 1 and ?s1.0 = "placed_once board_stem_up R0" and ?t1.0 = placed_once1]
  from t[where s = "init 8"] a have 1: "undo (init 8) = init 8" by blast
  from t[where s = "placed_once board_stem_up R0"] b i
  have 2: "redo (placed_once board_stem_up R0) = placed_once board_stem_up R0"
    and 3: "session_inv 8 (undo (placed_once board_stem_up R0))" by blast+
  from t[where s = "init 8"] p1 have 4: "redo placed_once1 = placed_once1" by blast
  from a b p p1 i 1 2 3 4 show ?thesis by simp
qed

subsection \<open>C8: reset\<close>

text \<open>
  C8. From every state, reset gives the grid of N rows of N Empty cells, a history that
  holds this one board, and the cursor 0. The empty grid is a board of size N with no
  occupied cell.
\<close>

theorem C8_reset:
  "grid (reset sz s) = Some (replicate sz (replicate sz Null))
   \<and> history (reset sz s) = [replicate sz (replicate sz Null)]
   \<and> currentStep (reset sz s) = 0
   \<and> wf_grid sz (emptyGrid sz)
   \<and> occupied (emptyGrid sz) = []"
  by (simp add: reset_def emptyGrid_def[symmetric] wf_emptyGrid occupied_emptyGrid)

theorem C8_reset_witness:
  "grid (reset 8 (placed_once board_stem_up R90)) = Some (emptyGrid 8)
   \<and> history (reset 8 (placed_once board_stem_up R90)) = [emptyGrid 8]
   \<and> currentStep (reset 8 (placed_once board_stem_up R90)) = 0
   \<and> reset 8 (placed_once board_stem_up R90) = rotateShape R90 (init 8)
   \<and> reset 8 placed_once1 = init1"
proof -
  have a: "reset 8 (placed_once board_stem_up R90) = rotateShape R90 (init 8)"
    by (simp add: reset_def placed_once_def rotateShape_def init_def)
  have b: "reset 8 placed_once1 = init1"
    by (simp add: reset_def placed_once1_def init1_def)
  from C8_reset[of 8 "placed_once board_stem_up R90"] a b show ?thesis
    by (simp add: emptyGrid_def)
qed

subsection \<open>C9: the cursor is an index of the history and the grid is its snapshot\<close>

text \<open>
  C9. Every sequence of place, undo, redo, reset and rotation events from the initial state
  runs without an exception, and in the state it reaches the cursor satisfies
  \<open>0 \<le> currentStep \<le> length history - 1\<close> and the grid is the snapshot
  \<open>history[currentStep]\<close>. This holds for the components with rotations (any board size,
  any offset table) and for the single-orientation component.
\<close>

theorem C9_cursor_and_grid_invariant:
  "(\<exists>s. run sz cellsf (init sz) es = Inr s
        \<and> 0 \<le> currentStep s \<and> currentStep s \<le> int (length (history s)) - 1
        \<and> grid s = Some (history s ! nat (currentStep s)))
   \<and> (\<exists>t. run1 init1 es1 = Inr t
        \<and> 0 \<le> currentStep t \<and> currentStep t \<le> int (length (history t)) - 1
        \<and> grid t = Some (history t ! nat (currentStep t)))"
proof -
  have inv: "0 \<le> currentStep u \<and> currentStep u \<le> int (length (history u)) - 1
        \<and> grid u = Some (history u ! nat (currentStep u))" if "session_inv n u"
    for n and u :: "'a hstate_scheme"
    using that by (auto simp: session_inv_def js_nth_def)
  from session_inv_run[OF session_inv_init, of sz cellsf es] obtain s where
    s: "run sz cellsf (init sz) es = Inr s" "session_inv sz s" by blast
  from session_inv_run1[OF session_inv_init1, of es1] obtain t where
    t: "run1 init1 es1 = Inr t" "session_inv 8 t" by blast
  from s(1) inv[OF s(2)] t(1) inv[OF t(2)] show ?thesis by blast
qed

theorem C9_cursor_and_grid_invariant_witness:
  "run 8 getTetrominoCells2 (init 8) [Place 0 1, Place 0 1, Undo, Redo, SetRotation R90, Reset,
        SetRotation R0, Place 0 1]
      = Inr (placed_once board_stem_up R0)
   \<and> 0 \<le> currentStep (placed_once board_stem_up R0)
   \<and> currentStep (placed_once board_stem_up R0)
        \<le> int (length (history (placed_once board_stem_up R0))) - 1
   \<and> grid (placed_once board_stem_up R0)
        = Some (history (placed_once board_stem_up R0) ! nat (currentStep (placed_once board_stem_up R0)))
   \<and> run1 init1 [Place1 0 0, Place1 3 3, Undo1, Redo1, Reset1, Place1 0 1] = Inr placed_once1
   \<and> 0 \<le> currentStep placed_once1
   \<and> currentStep placed_once1 \<le> int (length (history placed_once1)) - 1
   \<and> grid placed_once1 = Some (history placed_once1 ! nat (currentStep placed_once1))"
proof -
  have r: "run 8 getTetrominoCells2 (init 8) [Place 0 1, Place 0 1, Undo, Redo, SetRotation R90, Reset,
        SetRotation R0, Place 0 1]
      = Inr (placed_once board_stem_up R0)"
    by code_simp
  have r1: "run1 init1 [Place1 0 0, Place1 3 3, Undo1, Redo1, Reset1, Place1 0 1] = Inr placed_once1"
    by code_simp
  from C9_cursor_and_grid_invariant[of 8 getTetrominoCells2
      "[Place 0 1, Place 0 1, Undo, Redo, SetRotation R90, Reset, SetRotation R0, Place 0 1]"
      "[Place1 0 0, Place1 3 3, Undo1, Redo1, Reset1, Place1 0 1]"]
  show ?thesis unfolding r r1 by simp
qed

subsection \<open>C10: the reads of the single-orientation validator\<close>

text \<open>
  C10 says that the validator of \<^verbatim>\<open>src/unnamed/part_001\<close> reads the grid at indices inside
  the array only, for every anchor on the board. The code tests \<^verbatim>\<open>col > 0\<close> and
  \<^verbatim>\<open>col < 7\<close> after the four reads: at the anchor \<open>(0, 0)\<close> of the empty board it reads
  \<^verbatim>\<open>grid[1][-1]\<close>, and at the anchor \<open>(0, 7)\<close> it reads \<^verbatim>\<open>grid[1][8]\<close>. Both reads
  are outside the row and give \<^verbatim>\<open>undefined\<close>; the result is still a rejection.
\<close>

theorem C10_reads_outside_the_row:
  "isValidPlacement1_log (Some (emptyGrid 8)) 0 0 = ([(0, 0), (1, 0), (1, - 1), (1, 1)], Inr False)
   \<and> isValidPlacement1_log (Some (emptyGrid 8)) 0 7 = ([(0, 7), (1, 7), (1, 6), (1, 8)], Inr False)
   \<and> grid_read (Some (emptyGrid 8)) 1 (- 1) = Inr None
   \<and> grid_read (Some (emptyGrid 8)) 1 8 = Inr None"
proof -
  have a: "isValidPlacement1_log (Some (emptyGrid 8)) 0 0 = ([(0, 0), (1, 0), (1, - 1), (1, 1)], Inr False)"
    by code_simp
  have b: "isValidPlacement1_log (Some (emptyGrid 8)) 0 7 = ([(0, 7), (1, 7), (1, 6), (1, 8)], Inr False)"
    by code_simp
  have c: "grid_read (Some (emptyGrid 8)) 1 (- 1) = Inr None" by code_simp
  have d: "grid_read (Some (emptyGrid 8)) 1 8 = Inr None" by code_simp
  from a b c d show ?thesis by simp
qed

end
